theory Spec2Isabelle
  imports Main "HOL-Library.Word"
begin

unbundle bit_operations_syntax

section \<open>C values and the Toolbox\<close>

text \<open>
  \<^verbatim>\<open>Debug.c\<close> is written against the Classic Mac OS Toolbox. A \<^verbatim>\<open>short\<close> holds a file
  reference number or an \<^verbatim>\<open>OSErr\<close>; the code only stores such values and compares them with
  \<open>0\<close>, so they are integers here. Lengths and array indices are counted with natural
  numbers: \<open>MyStrLen_le\<close> below shows that a length never exceeds 32000, so it fits the
  16-bit \<^verbatim>\<open>short\<close> the code keeps it in. The \<^verbatim>\<open>long\<close> and \<^verbatim>\<open>unsigned long\<close> arguments of
  \<^verbatim>\<open>DebugLogInt\<close> and \<^verbatim>\<open>DebugLogHex\<close>, on which the code does arithmetic, are 32-bit words.

  A \<^verbatim>\<open>const char *\<close> is \<open>None\<close> for \<^verbatim>\<open>nil\<close>, and otherwise the bytes found at the address;
  the end of the list stands for the terminating NUL of the allocation, and a NUL byte
  may also occur inside the list.
\<close>

type_synonym short = int
type_synonym long = int
type_synonym OSErr = int
type_synonym bytes = "char list"
type_synonym cstring = "char list option"

definition noErr :: OSErr where
  "noErr = 0"

text \<open>
  The Toolbox routines that \<^verbatim>\<open>Debug.c\<close> calls, each with the arguments it is given. A file
  name argument is the text of the Pascal string passed; the data of \<open>FSWrite\<close> is the
  \<open>count\<close> bytes at the buffer address.
\<close>

datatype call =
    is_FSClose: FSClose short
  | is_FSDelete: FSDelete bytes short
  | is_Create: Create bytes short bytes bytes
  | is_FSOpen: FSOpen bytes short
  | is_FSWrite: FSWrite short long bytes
  | is_SysBeep: SysBeep short

text \<open>
  What a routine gives back: its \<^verbatim>\<open>OSErr\<close> and the value it stores through its pointer
  argument (the reference number of \<open>FSOpen\<close>, the byte count of \<open>FSWrite\<close>).
\<close>

datatype reply = Reply (reply_err: OSErr) (reply_out: int)

text \<open>
  The Toolbox is a parameter of the model: it answers a call knowing every earlier call
  and answer.
\<close>

type_synonym trace = "(call \<times> reply) list"
type_synonym toolbox = "trace \<Rightarrow> call \<Rightarrow> reply"

text \<open>The private state of \<^verbatim>\<open>Debug.c\<close>, and the calls made so far.\<close>

record state =
  gDebugRefNum :: short
  gDebugEnabled :: bool
  trace :: trace

definition initial :: state where
  "initial = \<lparr>gDebugRefNum = 0, gDebugEnabled = False, trace = []\<rparr>"

definition tcall :: "toolbox \<Rightarrow> call \<Rightarrow> state \<Rightarrow> reply \<times> state" where
  "tcall tb c s = (let r = tb (trace s) c in (r, s\<lparr>trace := trace s @ [(c, r)]\<rparr>))"

section \<open>MyStrLen\<close>

fun MyStrLen_loop :: "bytes \<Rightarrow> nat \<Rightarrow> nat" where
  "MyStrLen_loop [] len = len"
| "MyStrLen_loop (c # str) len =
     (if c \<noteq> CHR 0x00 \<and> len < 32000 then MyStrLen_loop str (len + 1) else len)"

definition MyStrLen :: "cstring \<Rightarrow> nat" where
  "MyStrLen str = (case str of None \<Rightarrow> 0 | Some cs \<Rightarrow> MyStrLen_loop cs 0)"

section \<open>DebugInit\<close>

definition headerMsg :: bytes where
  "headerMsg = ''DEBUG LOG INITIALIZED'' @ [CHR 0x0D]"

text \<open>
  The copy loop of the conversion to a Pascal string:
  \<^verbatim>\<open>for (i = 0; i < len; i++) pFilename[i + 1] = filename[i];\<close>
\<close>

function c2p_loop :: "bytes \<Rightarrow> bytes \<Rightarrow> nat \<Rightarrow> nat \<Rightarrow> bytes" where
  "c2p_loop pFilename filename i len =
     (if i < len then c2p_loop (pFilename[i + 1 := filename ! i]) filename (i + 1) len
      else pFilename)"
  by pat_completeness auto
termination
  by (relation "measure (\<lambda>(p, f, i, len). len - i)") auto

declare c2p_loop.simps [simp del]

text \<open>
  The text of a Pascal string, as the File Manager reads it from a \<^verbatim>\<open>Str255\<close>: the bytes
  after the length byte, as many as the length byte says.
\<close>

definition pstr_text :: "bytes \<Rightarrow> bytes" where
  "pstr_text p = take (of_char (p ! 0)) (tl p)"

text \<open>
  \<^verbatim>\<open>unsigned char pFilename[256]\<close> is not initialised; every cell that is read has been
  written before, and the model starts it with NUL bytes.
\<close>

definition c2pstr :: "bytes \<Rightarrow> nat \<Rightarrow> bytes" where
  "c2pstr filename len =
     c2p_loop ((replicate 256 (CHR 0x00))[0 := char_of len]) filename 0 len"

definition DebugInit :: "toolbox \<Rightarrow> cstring \<Rightarrow> state \<Rightarrow> bool \<times> state" where
  "DebugInit tb filename s0 =
     (let s1 = (if gDebugRefNum s0 \<noteq> 0
                then (snd (tcall tb (FSClose (gDebugRefNum s0)) s0))\<lparr>gDebugRefNum := 0\<rparr>
                else s0);
          s2 = s1\<lparr>gDebugEnabled := False\<rparr>
      in case filename of
           None \<Rightarrow> (False, snd (tcall tb (SysBeep 1) s2))
         | Some fname \<Rightarrow>
            (let len = MyStrLen filename;
                 len = (if len > 255 then 255 else len);
                 pFilename = c2pstr fname len;
                 s3 = snd (tcall tb (FSDelete (pstr_text pFilename) 0) s2);
                 (r4, s4) = tcall tb (Create (pstr_text pFilename) 0 ''ttxt'' ''TEXT'') s3
             in if reply_err r4 \<noteq> noErr then (False, snd (tcall tb (SysBeep 2) s4))
                else
                  (let (r5, s5) = tcall tb (FSOpen (pstr_text pFilename) 0) s4;
                       s5 = s5\<lparr>gDebugRefNum := reply_out r5\<rparr>
                   in if reply_err r5 \<noteq> noErr
                      then (False, (snd (tcall tb (SysBeep 3) s5))\<lparr>gDebugRefNum := 0\<rparr>)
                      else
                        (let s6 = s5\<lparr>gDebugEnabled := True\<rparr>;
                             count = MyStrLen (Some headerMsg);
                             (r7, s7) = tcall tb (FSWrite (gDebugRefNum s6) (int count)
                                                    (take count headerMsg)) s6
                         in if reply_err r7 \<noteq> noErr
                            then
                              (let s8 = snd (tcall tb (SysBeep 4) s7);
                                   s9 = snd (tcall tb (FSClose (gDebugRefNum s8)) s8)
                               in (False, s9\<lparr>gDebugRefNum := 0, gDebugEnabled := False\<rparr>))
                            else (True, snd (tcall tb (SysBeep 10) s7))))))"

section \<open>DebugLog\<close>

definition newline :: char where
  "newline = CHR 0x0D"

definition DebugLog :: "toolbox \<Rightarrow> cstring \<Rightarrow> state \<Rightarrow> state" where
  "DebugLog tb message s =
     (if \<not> gDebugEnabled s then snd (tcall tb (SysBeep 5) s)
      else if gDebugRefNum s = 0 then snd (tcall tb (SysBeep 6) s)
      else case message of
             None \<Rightarrow> snd (tcall tb (SysBeep 7) s)
           | Some msg \<Rightarrow>
              (let msgLen = MyStrLen message
               in if msgLen = 0 then snd (tcall tb (SysBeep 8) s)
                  else
                    (let (r1, s1) = tcall tb (FSWrite (gDebugRefNum s) (int msgLen)
                                                (take msgLen msg)) s
                     in if reply_err r1 \<noteq> noErr \<or> reply_out r1 \<noteq> int msgLen
                        then snd (tcall tb (SysBeep 20) s1)
                        else
                          (let (r2, s2) = tcall tb (FSWrite (gDebugRefNum s1) 1 [newline]) s1
                           in if reply_err r2 \<noteq> noErr then snd (tcall tb (SysBeep 21) s2)
                              else s2))))"

section \<open>DebugLogInt\<close>

text \<open>
  The digit loop:
  \<^verbatim>\<open>while (absVal > 0 && i < 19) { numBuf[i++] = '0' + (absVal % 10); absVal /= 10; }\<close>
\<close>

function digits_loop :: "32 word \<Rightarrow> bytes \<Rightarrow> nat \<Rightarrow> bytes \<times> nat" where
  "digits_loop absVal numBuf i =
     (if absVal > 0 \<and> i < 19
      then digits_loop (absVal div 10)
             (numBuf[i := char_of (of_char (CHR ''0'') + unat (absVal mod 10))]) (i + 1)
      else (numBuf, i))"
  by pat_completeness auto
termination
  by (relation "measure (\<lambda>(a, b, i). 19 - i)") auto

declare digits_loop.simps [simp del]

text \<open>
  The output loop: \<^verbatim>\<open>for (j = i - 1; j >= 0; j--)\<close>, one \<open>FSWrite\<close> per byte, left at the
  first error. The counter of the model is \<open>j + 1\<close>, so that the test \<^verbatim>\<open>j >= 0\<close> is the
  pattern \<open>Suc j\<close>. The result says whether the loop ran to its end.
\<close>

fun write_digits :: "toolbox \<Rightarrow> bytes \<Rightarrow> nat \<Rightarrow> state \<Rightarrow> bool \<times> state" where
  "write_digits tb numBuf 0 s = (True, s)"
| "write_digits tb numBuf (Suc j) s =
     (let (r, s') = tcall tb (FSWrite (gDebugRefNum s) 1 [numBuf ! j]) s
      in if reply_err r \<noteq> noErr then (False, s') else write_digits tb numBuf j s')"

text \<open>
  \<^verbatim>\<open>absVal = -value;\<close> with \<^verbatim>\<open>long value\<close>: the operand is a signed \<^verbatim>\<open>long\<close>, so the negation
  is done in signed arithmetic, and its result is converted to \<^verbatim>\<open>unsigned long\<close> afterwards.
  The negation of the least \<^verbatim>\<open>long\<close>, \<open>- 2147483648\<close>, is no \<^verbatim>\<open>long\<close>: a signed overflow, whose
  behaviour C leaves undefined. The model ends there with an error.
\<close>

datatype error = SignedOverflow

definition neg_long :: "32 word \<Rightarrow> error + 32 word" where
  "neg_long v =
     (let r = - sint v
      in if r < - (2 ^ 31) \<or> 2 ^ 31 - 1 < r then Inl SignedOverflow else Inr (word_of_int r))"

text \<open>
  The conversion of the number, from \<^verbatim>\<open>if (value < 0)\<close> to \<^verbatim>\<open>if (isNeg) numBuf[i++] = '-';\<close>.
  It gives \<open>numBuf\<close> and the count \<open>i\<close> of the cells filled. \<^verbatim>\<open>absVal = value\<close> converts a
  \<^verbatim>\<open>long\<close> that is not negative to \<^verbatim>\<open>unsigned long\<close>: the same word. \<^verbatim>\<open>char numBuf[20]\<close> starts
  with NUL bytes in the model; only cells written before are read.
\<close>

definition DebugLogInt_numBuf :: "32 word \<Rightarrow> error + bytes \<times> nat" where
  "DebugLogInt_numBuf value =
     (let isNeg = (value <s 0)
      in case (if value <s 0 then neg_long value else Inr value) of
           Inl e \<Rightarrow> Inl e
         | Inr absVal \<Rightarrow>
            (let numBuf = replicate 20 (CHR 0x00);
                 (numBuf, i) = (if absVal = 0 then (numBuf[0 := CHR ''0''], 1)
                                else digits_loop absVal numBuf 0)
             in Inr (if isNeg then (numBuf[i := CHR ''-''], i + 1) else (numBuf, i))))"

text \<open>
  \<open>DebugLogInt\<close> returns the new state, or stops with the error of the conversion in
  the state reached by then: the message has been written, no digit has.
\<close>

definition DebugLogInt ::
  "toolbox \<Rightarrow> cstring \<Rightarrow> 32 word \<Rightarrow> state \<Rightarrow> error \<times> state + state" where
  "DebugLogInt tb message value s =
     (if \<not> gDebugEnabled s \<or> gDebugRefNum s = 0 \<or> message = None then Inr s
      else
        (let msgLen = MyStrLen message;
             (ok1, s1) =
               (if msgLen > 0
                then (let (r, s') = tcall tb (FSWrite (gDebugRefNum s) (int msgLen)
                                               (take msgLen (case message of Some msg \<Rightarrow> msg | None \<Rightarrow> []))) s
                      in (reply_err r = noErr, s'))
                else (True, s))
         in if \<not> ok1 then Inr s1
            else
              (case DebugLogInt_numBuf value of
                 Inl e \<Rightarrow> Inl (e, s1)
               | Inr (numBuf, i) \<Rightarrow>
                  (let (ok2, s2) = write_digits tb numBuf i s1
                   in if \<not> ok2 then Inr s2
                      else Inr (snd (tcall tb (FSWrite (gDebugRefNum s2) 1 [newline]) s2))))))"

section \<open>DebugLogHex\<close>

definition hexChars :: bytes where
  "hexChars = ''0123456789ABCDEF''"

definition DebugLogHex :: "toolbox \<Rightarrow> cstring \<Rightarrow> 32 word \<Rightarrow> state \<Rightarrow> state" where
  "DebugLogHex tb message value s =
     (if \<not> gDebugEnabled s \<or> gDebugRefNum s = 0 \<or> message = None then s
      else
        (let msgLen = MyStrLen message;
             s1 = (if msgLen > 0
                   then snd (tcall tb (FSWrite (gDebugRefNum s) (int msgLen)
                                         (take msgLen (case message of Some msg \<Rightarrow> msg | None \<Rightarrow> []))) s)
                   else s);
             hexBuf = replicate 16 (CHR 0x00);
             hexBuf = hexBuf[0 := CHR ''0''];
             hexBuf = hexBuf[1 := CHR ''x''];
             s2 = snd (tcall tb (FSWrite (gDebugRefNum s1) 2 (take 2 hexBuf)) s1);
             hexBuf = hexBuf[0 := hexChars ! unat ((drop_bit 4 value) AND 0x0F)];
             hexBuf = hexBuf[1 := hexChars ! unat (value AND 0x0F)];
             s3 = snd (tcall tb (FSWrite (gDebugRefNum s2) 2 (take 2 hexBuf)) s2)
         in snd (tcall tb (FSWrite (gDebugRefNum s3) 1 [newline]) s3)))"

section \<open>DebugLogFormat, DebugFlush, DebugClose, DebugIsEnabled\<close>

definition DebugLogFormat :: "toolbox \<Rightarrow> cstring \<Rightarrow> state \<Rightarrow> state" where
  "DebugLogFormat tb format s = (if format \<noteq> None then DebugLog tb format s else s)"

definition DebugFlush :: "state \<Rightarrow> state" where
  "DebugFlush s = s"

definition endMsg :: bytes where
  "endMsg = ''DEBUG LOG CLOSED'' @ [CHR 0x0D]"

definition DebugClose :: "toolbox \<Rightarrow> state \<Rightarrow> state" where
  "DebugClose tb s =
     (let s3 =
        (if gDebugRefNum s \<noteq> 0
         then
           (let count = MyStrLen (Some endMsg);
                s1 = snd (tcall tb (FSWrite (gDebugRefNum s) (int count) (take count endMsg)) s);
                s2 = snd (tcall tb (FSClose (gDebugRefNum s1)) s1)
            in s2\<lparr>gDebugRefNum := 0\<rparr>)
         else s)
      in s3\<lparr>gDebugEnabled := False\<rparr>)"

definition DebugIsEnabled :: "state \<Rightarrow> bool" where
  "DebugIsEnabled s = gDebugEnabled s"

section \<open>The public surface as steps of one Logger\<close>

datatype operation =
    Initialize cstring
  | Append cstring
  | AppendInt cstring "32 word"
  | AppendHex cstring "32 word"
  | AppendFormatted cstring
  | Flush
  | Close

text \<open>
  The state in which a call ends, be it by returning or by stopping with an error.
\<close>

definition state_of :: "error \<times> state + state \<Rightarrow> state" where
  "state_of r = (case r of Inl (e, s) \<Rightarrow> s | Inr s \<Rightarrow> s)"

fun exec :: "toolbox \<Rightarrow> state \<Rightarrow> operation \<Rightarrow> state" where
  "exec tb s (Initialize name) = snd (DebugInit tb name s)"
| "exec tb s (Append message) = DebugLog tb message s"
| "exec tb s (AppendInt message v) = state_of (DebugLogInt tb message v s)"
| "exec tb s (AppendHex message v) = DebugLogHex tb message v s"
| "exec tb s (AppendFormatted format) = DebugLogFormat tb format s"
| "exec tb s Flush = DebugFlush s"
| "exec tb s Close = DebugClose tb s"

text \<open>Whether the operation stops with an error: only \<open>DebugLogInt\<close> can.\<close>

fun stops :: "toolbox \<Rightarrow> state \<Rightarrow> operation \<Rightarrow> bool" where
  "stops tb s (AppendInt message v) = isl (DebugLogInt tb message v s)"
| "stops tb s operation = False"

text \<open>
  A run of operations ends with the last of them, or with the first that stops with an
  error; \<open>run\<close> is the state it ends in, from the initial state.
\<close>

fun run_from :: "toolbox \<Rightarrow> state \<Rightarrow> operation list \<Rightarrow> state" where
  "run_from tb s [] = s"
| "run_from tb s (operation # ops) =
     (if stops tb s operation then exec tb s operation
      else run_from tb (exec tb s operation) ops)"

definition run :: "toolbox \<Rightarrow> operation list \<Rightarrow> state" where
  "run tb ops = run_from tb initial ops"

section \<open>What a run shows from outside\<close>

text \<open>The Toolbox calls made so far, and the part of the trace added between two states.\<close>

definition calls :: "state \<Rightarrow> call list" where
  "calls s = map fst (trace s)"

definition since :: "state \<Rightarrow> state \<Rightarrow> trace" where
  "since s s' = drop (length (trace s)) (trace s')"

text \<open>Some call of the kind \<open>P\<close> was made and returned \<open>noErr\<close>.\<close>

definition succeeded :: "(call \<Rightarrow> bool) \<Rightarrow> trace \<Rightarrow> bool" where
  "succeeded P tr = list_ex (\<lambda>(c, r). P c \<and> reply_err r = noErr) tr"

text \<open>
  The reference numbers a trace leaves open: \<open>FSOpen\<close> returning \<open>noErr\<close> hands one out,
  and a reference number counts as released once \<open>FSClose\<close> has been called on it.
\<close>

fun handle_step :: "short list \<Rightarrow> call \<times> reply \<Rightarrow> short list" where
  "handle_step hs (FSOpen p v, r) = (if reply_err r = noErr then hs @ [reply_out r] else hs)"
| "handle_step hs (FSClose h, r) = remove1 h hs"
| "handle_step hs (c, r) = hs"

definition open_handles :: "trace \<Rightarrow> short list" where
  "open_handles tr = foldl handle_step [] tr"

text \<open>The bytes handed to \<open>FSWrite\<close>, in order.\<close>

fun write_data :: "call \<Rightarrow> bytes" where
  "write_data (FSWrite h n d) = d"
| "write_data c = []"

definition written :: "call list \<Rightarrow> bytes" where
  "written cs = concat (map write_data cs)"

text \<open>The file name a call is given, if it takes one.\<close>

fun call_name :: "call \<Rightarrow> bytes option" where
  "call_name (FSDelete p v) = Some p"
| "call_name (Create p v cr ty) = Some p"
| "call_name (FSOpen p v) = Some p"
| "call_name c = None"

text \<open>
  At no moment of a trace is more than one reference number open: \<open>hs\<close> are the ones
  open before the first call of the trace.
\<close>

fun never_two :: "short list \<Rightarrow> trace \<Rightarrow> bool" where
  "never_two hs [] = (length hs \<le> 1)"
| "never_two hs (x # xs) = (length hs \<le> 1 \<and> never_two (handle_step hs x) xs)"

text \<open>
  The invariant of the Logger: an enabled Logger has a reference number, the
  reference numbers left open are exactly the one it holds, and there never were two.
\<close>

definition logger_inv :: "state \<Rightarrow> bool" where
  "logger_inv s \<longleftrightarrow>
     (gDebugEnabled s \<longrightarrow> gDebugRefNum s \<noteq> 0) \<and>
     open_handles (trace s) = (if gDebugRefNum s = 0 then [] else [gDebugRefNum s]) \<and>
     never_two [] (trace s)"

text \<open>
  The File Manager's contract that the code relies on when it keeps \<open>0\<close> for "no file":
  an \<open>FSOpen\<close> that returns \<open>noErr\<close> stores a reference number other than \<open>0\<close>.
\<close>

definition refnums_nonzero :: "toolbox \<Rightarrow> bool" where
  "refnums_nonzero tb \<longleftrightarrow>
     (\<forall>tr p v. reply_err (tb tr (FSOpen p v)) = noErr \<longrightarrow> reply_out (tb tr (FSOpen p v)) \<noteq> 0)"

text \<open>Every \<open>FSWrite\<close> returns \<open>noErr\<close>.\<close>

definition writes_succeed :: "toolbox \<Rightarrow> bool" where
  "writes_succeed tb \<longleftrightarrow> (\<forall>tr h n d. reply_err (tb tr (FSWrite h n d)) = noErr)"

section \<open>The record formats, as the specification words them\<close>

text \<open>
  The text of a C string as \<open>MyStrLen\<close> measures it.
\<close>

definition c_text :: "cstring \<Rightarrow> bytes" where
  "c_text str = (case str of None \<Rightarrow> [] | Some cs \<Rightarrow> take (MyStrLen str) cs)"

text \<open>The decimal numeral of an integer: base 10, most significant digit first, a leading
  minus sign exactly for a negative value.\<close>

definition digit_char :: "nat \<Rightarrow> char" where
  "digit_char d = ''0123456789'' ! d"

fun dec_digits :: "nat \<Rightarrow> string" where
  "dec_digits n = (if n < 10 then [digit_char n] else dec_digits (n div 10) @ [digit_char (n mod 10)])"

declare dec_digits.simps [simp del]

definition decimal :: "int \<Rightarrow> string" where
  "decimal k = (if k < 0 then CHR ''-'' # dec_digits (nat (- k)) else dec_digits (nat k))"

text \<open>Two uppercase hexadecimal digits of a byte value, zero-padded.\<close>

definition hex_digit :: "nat \<Rightarrow> char" where
  "hex_digit d = (if d < 10 then char_of (of_char (CHR ''0'') + d)
                  else char_of (of_char (CHR ''A'') + (d - 10)))"

definition hex_byte :: "nat \<Rightarrow> string" where
  "hex_byte b = [hex_digit (b div 16), hex_digit (b mod 16)]"

section \<open>Toolboxes to run the model on\<close>

text \<open>
  A Toolbox in which every call returns \<open>noErr\<close>: \<open>FSOpen\<close> stores the reference number
  \<open>1\<close>, and \<open>FSWrite\<close> reports every byte written. \<open>tb_failing P\<close> returns \<open>ioErr\<close>
  (\<open>-36\<close>) on the calls of the kind \<open>P\<close> and is \<open>tb_ok\<close> on the others.
\<close>

definition tb_ok :: toolbox where
  "tb_ok tr c = (case c of FSOpen p v \<Rightarrow> Reply noErr 1
                         | FSWrite h n d \<Rightarrow> Reply noErr n
                         | _ \<Rightarrow> Reply noErr 0)"

definition tb_failing :: "(call \<Rightarrow> bool) \<Rightarrow> toolbox" where
  "tb_failing P tr c = (if P c then Reply (- 36) 0 else tb_ok tr c)"

text \<open>The Logger after a successful \<open>DebugInit("log")\<close> from the initial state.\<close>

definition logging :: state where
  "logging = snd (DebugInit tb_ok (Some ''log'') initial)"

section \<open>Lengths and the Pascal file name\<close>


lemma MyStrLen_loop_eq:
  "len \<le> 32000 \<Longrightarrow>
   MyStrLen_loop cs len = min 32000 (len + length (takeWhile (\<lambda>c. c \<noteq> CHR 0x00) cs))"
  by (induction cs arbitrary: len) auto

lemma MyStrLen_Some:
  "MyStrLen (Some cs) = min 32000 (length (takeWhile (\<lambda>c. c \<noteq> CHR 0x00) cs))"
  by (simp add: MyStrLen_def MyStrLen_loop_eq)

lemma MyStrLen_None [simp]: "MyStrLen None = 0"
  by (simp add: MyStrLen_def)

lemma MyStrLen_le: "MyStrLen str \<le> 32000"
  by (cases str) (simp_all add: MyStrLen_Some)

lemma MyStrLen_le_length: "MyStrLen (Some cs) \<le> length cs"
  by (simp add: MyStrLen_Some min.coboundedI2 length_takeWhile_le)

lemma MyStrLen_endMsg: "MyStrLen (Some endMsg) = 17"
  by (simp add: MyStrLen_Some endMsg_def)

lemma MyStrLen_headerMsg: "MyStrLen (Some headerMsg) = 22"
  by (simp add: MyStrLen_Some headerMsg_def)

lemma length_c2p_loop [simp]: "length (c2p_loop p f i len) = length p"
  by (induction p f i len rule: c2p_loop.induct) (subst c2p_loop.simps, simp)

lemma nth_c2p_loop:
  "k < length p \<Longrightarrow>
   c2p_loop p f i len ! k = (if i < k \<and> k \<le> len then f ! (k - 1) else p ! k)"
proof (induction p f i len arbitrary: k rule: c2p_loop.induct)
  case (1 p f i len)
  show ?case
  proof (cases "i < len")
    case True
    have "c2p_loop p f i len ! k = c2p_loop (p[i + 1 := f ! i]) f (i + 1) len ! k"
      by (subst c2p_loop.simps) (simp add: True)
    also have "\<dots> = (if i + 1 < k \<and> k \<le> len then f ! (k - 1) else (p[i + 1 := f ! i]) ! k)"
      using "1.IH" [OF True, of k] "1.prems" by simp
    also have "\<dots> = (if i < k \<and> k \<le> len then f ! (k - 1) else p ! k)"
      using True "1.prems" by (cases "k = i + 1") (auto simp: nth_list_update)
    finally show ?thesis .
  next
    case False
    then show ?thesis by (subst c2p_loop.simps) auto
  qed
qed

lemma pstr_text_c2pstr:
  assumes "len \<le> 255" "len \<le> length f"
  shows "pstr_text (c2pstr f len) = take len f"
proof -
  let ?p = "(replicate 256 (CHR 0x00))[0 := char_of len]"
  let ?r = "c2p_loop ?p f 0 len"
  have len0: "?r ! 0 = char_of len"
    by (simp add: nth_c2p_loop)
  have oc: "len mod 256 = len"
    using assms(1) by simp
  have "take len (tl ?r) = take len f"
  proof (rule nth_equalityI)
    show "length (take len (tl ?r)) = length (take len f)"
      using assms by simp
  next
    fix k assume "k < length (take len (tl ?r))"
    then have k: "k < len" by simp
    then have "take len (tl ?r) ! k = ?r ! (k + 1)"
      using assms by (simp add: nth_tl)
    also have "\<dots> = f ! k"
      using k assms by (simp add: nth_c2p_loop)
    finally show "take len (tl ?r) ! k = take len f ! k"
      using k by simp
  qed
  then show ?thesis
    by (simp add: pstr_text_def c2pstr_def len0 oc)
qed

lemma DebugInit_name:
  "pstr_text (c2pstr fname (if 255 < MyStrLen (Some fname) then 255 else MyStrLen (Some fname)))
   = take 255 (c_text (Some fname))"
  using MyStrLen_le_length [of fname]
  by (simp add: pstr_text_c2pstr c_text_def min_def)



lemma take_takeWhile_length: "take (length (takeWhile P xs)) xs = takeWhile P xs"
  by (induction xs) auto

lemma c_text_Some: "c_text (Some cs) = take 32000 (takeWhile (\<lambda>c. c \<noteq> CHR 0x00) cs)"
proof -
  let ?t = "takeWhile (\<lambda>c. c \<noteq> CHR 0x00) cs"
  have "take (min 32000 (length ?t)) cs = take 32000 (take (length ?t) cs)"
    by (simp add: min.commute)
  then show ?thesis
    by (simp add: c_text_def MyStrLen_Some take_takeWhile_length)
qed

section \<open>Toolbox calls\<close>

lemma tcall_fields [simp]:
  "gDebugRefNum (snd (tcall tb c s)) = gDebugRefNum s"
  "gDebugEnabled (snd (tcall tb c s)) = gDebugEnabled s"
  "trace (snd (tcall tb c s)) = trace s @ [(c, fst (tcall tb c s))]"
  by (simp_all add: tcall_def Let_def)

lemma tcall_update [simp]:
  "tcall tb c (s\<lparr>gDebugRefNum := h\<rparr>) =
     (fst (tcall tb c s), (snd (tcall tb c s))\<lparr>gDebugRefNum := h\<rparr>)"
  "tcall tb c (s\<lparr>gDebugEnabled := b\<rparr>) =
     (fst (tcall tb c s), (snd (tcall tb c s))\<lparr>gDebugEnabled := b\<rparr>)"
  by (simp_all add: tcall_def Let_def)

lemma fst_tcall: "fst (tcall tb c s) = tb (trace s) c"
  by (simp add: tcall_def Let_def)

lemma fst_tcall_ok:
  "fst (tcall tb_ok c s) = (case c of FSOpen p v \<Rightarrow> Reply 0 1
                                    | FSWrite h n d \<Rightarrow> Reply 0 n
                                    | _ \<Rightarrow> Reply 0 0)"
  by (cases c) (simp_all add: fst_tcall tb_ok_def noErr_def)

lemma snd_tcall: "snd (tcall tb c s) = s\<lparr>trace := trace s @ [(c, fst (tcall tb c s))]\<rparr>"
  by (simp add: tcall_def Let_def)

lemma fst_tcall_failing:
  "fst (tcall (tb_failing P) c s) = (if P c then Reply (- 36) 0 else fst (tcall tb_ok c s))"
  by (simp add: fst_tcall tb_failing_def)

lemma DebugInit_ok_eval:
  "DebugInit tb_ok (Some ''log'') initial =
     (True, \<lparr>gDebugRefNum = 1, gDebugEnabled = True,
             trace = [(FSDelete ''log'' 0, Reply 0 0),
                      (Create ''log'' 0 ''ttxt'' ''TEXT'', Reply 0 0),
                      (FSOpen ''log'' 0, Reply 0 1),
                      (FSWrite 1 22 (''DEBUG LOG INITIALIZED'' @ [CHR 0x0D]), Reply 0 22),
                      (SysBeep 10, Reply 0 0)]\<rparr>)"
  by (simp add: DebugInit_def Let_def case_prod_beta DebugInit_name MyStrLen_headerMsg fst_tcall_ok)
     (simp add: initial_def c_text_def MyStrLen_Some headerMsg_def noErr_def snd_tcall fst_tcall_ok)

lemma logging_eval:
  "logging = \<lparr>gDebugRefNum = 1, gDebugEnabled = True,
             trace = [(FSDelete ''log'' 0, Reply 0 0),
                      (Create ''log'' 0 ''ttxt'' ''TEXT'', Reply 0 0),
                      (FSOpen ''log'' 0, Reply 0 1),
                      (FSWrite 1 22 (''DEBUG LOG INITIALIZED'' @ [CHR 0x0D]), Reply 0 22),
                      (SysBeep 10, Reply 0 0)]\<rparr>"
  by (simp add: logging_def DebugInit_ok_eval)

lemma logging_fields [simp]: "gDebugRefNum logging = 1" "gDebugEnabled logging"
  by (simp_all add: logging_eval)

lemma DebugInit_failing_write_eval:
  "DebugInit (tb_failing is_FSWrite) (Some ''log'') initial =
     (False, \<lparr>gDebugRefNum = 0, gDebugEnabled = False,
             trace = [(FSDelete ''log'' 0, Reply 0 0),
                      (Create ''log'' 0 ''ttxt'' ''TEXT'', Reply 0 0),
                      (FSOpen ''log'' 0, Reply 0 1),
                      (FSWrite 1 22 (''DEBUG LOG INITIALIZED'' @ [CHR 0x0D]), Reply (- 36) 0),
                      (SysBeep 4, Reply 0 0),
                      (FSClose 1, Reply 0 0)]\<rparr>)"
  by (simp add: DebugInit_def Let_def case_prod_beta DebugInit_name MyStrLen_headerMsg
        fst_tcall_failing fst_tcall_ok)
     (simp add: initial_def c_text_def MyStrLen_Some headerMsg_def noErr_def snd_tcall
        fst_tcall_failing fst_tcall_ok)

lemma calls_tcall [simp]: "calls (snd (tcall tb c s)) = calls s @ [c]"
  by (simp add: calls_def)

lemma calls_update [simp]:
  "calls (s\<lparr>gDebugRefNum := h\<rparr>) = calls s"
  "calls (s\<lparr>gDebugEnabled := b\<rparr>) = calls s"
  by (simp_all add: calls_def)

lemma calls_since: "trace s' = trace s @ xs \<Longrightarrow> map fst (since s s') = map fst xs"
  by (simp add: since_def)

section \<open>Characters and nibbles\<close>

lemma unat_low_nibble: "unat ((v :: 32 word) AND 0x0F) = unat v mod 16"
proof -
  have "v AND 0x0F = take_bit 4 v"
    by (simp add: take_bit_eq_mask mask_eq_exp_minus_1)
  also have "unat (take_bit 4 v) = unat v mod 16"
    by (simp add: unsigned_take_bit_eq take_bit_eq_mod unat_mod_distrib)
  finally show ?thesis .
qed

lemma unat_shift_nibble: "unat (drop_bit 4 (v :: 32 word)) = unat v div 16"
  by (simp add: unat_drop_bit_eq drop_bit_eq_div unat_div_distrib)

lemma hexChars_nth: "d < 16 \<Longrightarrow> hexChars ! d = hex_digit d"
proof -
  have "list_all (\<lambda>d. hexChars ! d = hex_digit d) [0 ..< 16]"
    by code_simp
  moreover assume "d < 16"
  ultimately show ?thesis
    by (simp add: list_all_iff)
qed

lemma digit_char_eq: "d < 10 \<Longrightarrow> char_of (of_char (CHR ''0'') + d) = digit_char d"
proof -
  have "list_all (\<lambda>d. char_of (of_char (CHR ''0'') + d) = digit_char d) [0 ..< 10]"
    by code_simp
  moreover assume "d < 10"
  ultimately show ?thesis
    by (simp add: list_all_iff)
qed

lemma hex_buf: 
  "[hexChars ! unat (drop_bit 4 (v :: 32 word) AND 0x0F), hexChars ! unat (v AND 0x0F)]
   = hex_byte (unat v mod 256)"
proof -
  have "unat v mod 256 div 16 = unat v div 16 mod 16"
    using mod_mult2_eq [of "unat v" 16 16] by simp
  moreover have "unat v mod 256 mod 16 = unat v mod 16"
    using mod_mod_cancel [of 16 256 "unat v"] by simp
  ultimately show ?thesis
    by (simp add: hex_byte_def unat_low_nibble unat_shift_nibble hexChars_nth)
qed

lemma length_c_text: "length (c_text str) = MyStrLen str"
  by (cases str) (simp_all add: c_text_def MyStrLen_le_length min_absorb2)

lemma take2_update: "2 \<le> length xs \<Longrightarrow> take 2 (xs[0 := a, Suc 0 := b]) = [a, b]"
  by (cases xs; cases "tl xs") auto

section \<open>Decimal digits and the digit buffer\<close>

lemma dec_digits_small: "n < 10 \<Longrightarrow> dec_digits n = [digit_char n]"
  by (subst dec_digits.simps) simp

lemma dec_digits_step:
  "10 \<le> n \<Longrightarrow> dec_digits n = dec_digits (n div 10) @ [digit_char (n mod 10)]"
  by (subst dec_digits.simps) simp

lemma length_dec_digits: "0 < k \<Longrightarrow> n < 10 ^ k \<Longrightarrow> length (dec_digits n) \<le> k"
proof (induction k arbitrary: n)
  case 0
  then show ?case by simp
next
  case (Suc k)
  show ?case
  proof (cases "n < 10")
    case True
    then show ?thesis by (simp add: dec_digits_small)
  next
    case False
    then have k: "0 < k"
      using Suc.prems by (cases k) auto
    have "n div 10 < 10 ^ k"
      using Suc.prems(2) by (simp add: less_mult_imp_div_less mult.commute)
    then have "length (dec_digits (n div 10)) \<le> k"
      using Suc.IH k by blast
    then show ?thesis
      using False by (simp add: dec_digits_step)
  qed
qed

lemma length_dec_digits_word: "length (dec_digits (unat (a :: 32 word))) \<le> 10"
proof -
  have "unat a < 2 ^ 32"
    using unsigned_less [of a] by simp
  also have "(2::nat) ^ 32 < 10 ^ 10"
    by simp
  finally show ?thesis
    by (intro length_dec_digits) simp_all
qed

lemma length_dec_digits_pos: "0 < length (dec_digits n)"
  by (subst dec_digits.simps) simp

lemma digits_loop_spec:
  "a \<noteq> 0 \<Longrightarrow> i + length (dec_digits (unat a)) \<le> 19 \<Longrightarrow> 19 \<le> length buf \<Longrightarrow>
   digits_loop a buf i = (buf', i') \<Longrightarrow>
   i' = i + length (dec_digits (unat a))
   \<and> take i' buf' = take i buf @ rev (dec_digits (unat a))
   \<and> length buf' = length buf"
proof (induction a buf i arbitrary: buf' i' rule: digits_loop.induct)
  case (1 absVal numBuf i)
  let ?d = "char_of (of_char (CHR ''0'') + unat (absVal mod 10))"
  have d: "char_of (48 + unat (absVal mod 10)) = digit_char (unat absVal mod 10)"
    using digit_char_eq [of "unat absVal mod 10"] by (simp add: unat_mod_distrib)
  have pos: "absVal > 0"
    using "1.prems"(1) by (simp add: word_greater_zero_iff)
  have i: "i < 19"
    using "1.prems"(2) length_dec_digits_pos [of "unat absVal"] by linarith
  have step: "digits_loop absVal numBuf i = digits_loop (absVal div 10) (numBuf[i := ?d]) (i + 1)"
    by (subst digits_loop.simps) (simp add: pos i)
  have u: "unat (absVal div 10) = unat absVal div 10"
    by (simp add: unat_div_distrib)
  have z: "absVal div 10 = 0 \<longleftrightarrow> unat absVal < 10"
    using u unat_eq_zero [of "absVal div 10"] by auto
  show ?case
  proof (cases "absVal div 10 = 0")
    case True
    then have small: "unat absVal < 10"
      by (simp add: z)
    have "digits_loop (absVal div 10) (numBuf[i := ?d]) (i + 1) = (numBuf[i := ?d], i + 1)"
      by (subst digits_loop.simps) (simp add: True)
    with step "1.prems"(4) have r: "buf' = numBuf[i := ?d]" "i' = i + 1"
      by simp_all
    show ?thesis
      using small i "1.prems"(3) by (simp add: r d dec_digits_small take_Suc_conv_app_nth)
  next
    case False
    then have big: "10 \<le> unat absVal"
      by (simp add: z)
    have len: "i + 1 + length (dec_digits (unat (absVal div 10))) \<le> 19"
      using "1.prems"(2) big by (simp add: u dec_digits_step)
    have lb: "19 \<le> length (numBuf[i := ?d])"
      using "1.prems"(3) by simp
    have eq: "digits_loop (absVal div 10) (numBuf[i := ?d]) (i + 1) = (buf', i')"
      using step "1.prems"(4) by simp
    have c: "0 < absVal \<and> i < 19"
      using pos i by simp
    have IH: "i' = i + 1 + length (dec_digits (unat (absVal div 10)))
        \<and> take i' buf' = take (i + 1) (numBuf[i := ?d]) @ rev (dec_digits (unat (absVal div 10)))
        \<and> length buf' = length (numBuf[i := ?d])"
      by (rule "1.IH" [OF c False len lb eq])
    have t: "take (i + 1) (numBuf[i := ?d]) = take i numBuf @ [digit_char (unat absVal mod 10)]"
      using i "1.prems"(3) by (simp add: d take_Suc_conv_app_nth)
    show ?thesis
      using IH big unfolding t by (auto simp: u dec_digits_step)
  qed
qed

lemma sint_cases: "sint (v :: 32 word) = (if uint v < 2 ^ 31 then uint v else uint v - 2 ^ 32)"
proof -
  have lt: "uint v < 2 ^ 32"
    using uint_bounded [of v] by simp
  have ge: "0 \<le> uint v"
    by simp
  have b: "bit (uint v) 31 \<longleftrightarrow> \<not> uint v < 2 ^ 31"
  proof (cases "uint v < 2 ^ 31")
    case True
    then have "uint v div 2 ^ 31 = 0"
      using ge by (simp add: div_pos_pos_trivial)
    then show ?thesis
      using True by (simp add: bit_iff_odd)
  next
    case False
    then have "uint v div 2 ^ 31 = 1"
      using lt by (intro int_div_pos_eq [where r = "uint v - 2 ^ 31"]) simp_all
    then show ?thesis
      using False by (simp add: bit_iff_odd)
  qed
  have t: "take_bit 32 (uint v) = uint v"
    using lt ge by (simp add: take_bit_int_eq_self)
  have "sint v = signed_take_bit 31 (uint v)"
    by (simp add: sint_uint)
  also have "\<dots> = take_bit 32 (uint v) - 2 ^ 32 * of_bool (bit (uint v) 31)"
    using signed_take_bit_eq_take_bit_minus [of 31 "uint v"] by simp
  finally show ?thesis
    by (simp add: t b)
qed

lemma unat_nonneg: "\<not> sint (v :: 32 word) < 0 \<Longrightarrow> unat v = nat (sint v)"
proof -
  assume a: "\<not> sint v < 0"
  have lt: "uint v < 2 ^ 32"
    using uint_bounded [of v] by simp
  have "sint v = uint v"
  proof (cases "uint v < 2 ^ 31")
    case True
    then show ?thesis
      by (simp only: sint_cases if_True)
  next
    case False
    then have "sint v = uint v - 2 ^ 32"
      by (simp only: sint_cases if_False)
    with lt a show ?thesis
      by linarith
  qed
  then show ?thesis
    by (simp only: unat_eq_nat_uint)
qed


lemma unat_neg: "sint (v :: 32 word) < 0 \<Longrightarrow> unat (- v) = nat (- sint v)"
proof -
  assume a: "sint v < 0"
  have lt: "uint v < 2 ^ 32"
    using uint_bounded [of v] by simp
  have ge: "0 \<le> uint v"
    by simp
  have big: "\<not> uint v < 2 ^ 31"
  proof
    assume "uint v < 2 ^ 31"
    then have "sint v = uint v"
      by (simp only: sint_cases if_True)
    with a ge show False
      by linarith
  qed
  then have s: "sint v = uint v - 2 ^ 32"
    by (simp only: sint_cases if_False)
  have pos: "0 < uint v"
    using big ge by (cases "uint v = 0") simp_all
  have "uint (- v) = (- uint v) mod 2 ^ 32"
    by (simp only: uint_word_ariths) simp
  also have "\<dots> = 2 ^ 32 - uint v"
    by (rule int_mod_pos_eq [where q = "- 1"]) (use pos lt in linarith)+
  finally have "uint (- v) = - sint v"
    using s by linarith
  then show ?thesis
    by (simp only: unat_eq_nat_uint)
qed

lemma write_digits_fields [simp]:
  "gDebugRefNum (snd (write_digits tb buf n s)) = gDebugRefNum s"
  "gDebugEnabled (snd (write_digits tb buf n s)) = gDebugEnabled s"
  by (induction n arbitrary: s; simp add: case_prod_beta)+

lemma writes_succeed_tcall:
  "writes_succeed tb \<Longrightarrow> reply_err (fst (tcall tb (FSWrite h n d) s)) = noErr"
  by (simp add: writes_succeed_def fst_tcall)

lemma write_digits_ok:
  "writes_succeed tb \<Longrightarrow> n \<le> length buf \<Longrightarrow>
   fst (write_digits tb buf n s)
   \<and> calls (snd (write_digits tb buf n s)) =
       calls s @ map (\<lambda>c. FSWrite (gDebugRefNum s) 1 [c]) (rev (take n buf))"
proof (induction n arbitrary: s)
  case 0
  then show ?case by simp
next
  case (Suc n)
  then show ?case
    by (simp add: case_prod_beta writes_succeed_tcall take_Suc_conv_app_nth)
qed

lemma take1_update: "0 < length xs \<Longrightarrow> take (Suc 0) (xs[0 := a]) = [a]"
  by (cases xs) auto

lemma numBuf_digits:
  fixes absVal :: "32 word"
  assumes "(if absVal = 0 then ((replicate 20 (CHR 0x00))[0 := CHR ''0''], 1)
            else digits_loop absVal (replicate 20 (CHR 0x00)) 0) = (numBuf, i)"
  shows "i = length (dec_digits (unat absVal)) \<and> take i numBuf = rev (dec_digits (unat absVal))
         \<and> length numBuf = 20"
proof (cases "absVal = 0")
  case True
  have "digit_char 0 = CHR ''0''"
    by (simp add: digit_char_def)
  with True assms show ?thesis
    by (auto simp: dec_digits_small take1_update)
next
  case False
  have "0 + length (dec_digits (unat absVal)) \<le> 19"
    using length_dec_digits_word [of absVal] by simp
  from digits_loop_spec [OF False this, of "replicate 20 (CHR 0x00)" numBuf i] False assms
  show ?thesis
    by auto
qed

lemma sint_least: "sint (v :: 32 word) = - (2 ^ 31) \<longleftrightarrow> v = 0x80000000"
proof
  assume "sint v = - (2 ^ 31)"
  then have "word_of_int (sint v) = (word_of_int (- (2 ^ 31)) :: 32 word)"
    by (simp only:)
  then show "v = 0x80000000"
    by simp
next
  assume "v = 0x80000000"
  then show "sint v = - (2 ^ 31)"
    by simp
qed

lemma neg_long_least: "neg_long 0x80000000 = Inl SignedOverflow"
  by (simp add: neg_long_def)

lemma neg_long_other:
  assumes "v \<noteq> 0x80000000"
  shows "neg_long v = Inr (- v)"
proof -
  have "- (2 ^ 31) \<le> sint v" "sint v < 2 ^ 31"
    using sint_ge [of v] sint_lt [of v] by simp_all
  moreover have "sint v \<noteq> - (2 ^ 31)"
    using assms by (simp only: sint_least not_False_eq_True)
  ultimately have "\<not> (- sint v < - (2 ^ 31) \<or> 2 ^ 31 - 1 < - sint v)"
    by linarith
  moreover have "word_of_int (- sint v) = - v"
    by simp
  ultimately show ?thesis
    unfolding neg_long_def Let_def by (simp only: if_False)
qed


lemma DebugLogInt_numBuf_least: "DebugLogInt_numBuf 0x80000000 = Inl SignedOverflow"
  by (simp add: DebugLogInt_numBuf_def neg_long_least word_sless_alt)

lemma DebugLogInt_numBuf_spec:
  assumes "value \<noteq> 0x80000000"
  shows "\<exists>numBuf i. DebugLogInt_numBuf value = Inr (numBuf, i)
           \<and> i \<le> length numBuf \<and> rev (take i numBuf) = decimal (sint value)"
proof -
  define absVal where "absVal = (if value <s 0 then - value else value)"
  have c: "(if value <s 0 then neg_long value else Inr value) = Inr absVal"
    using assms by (simp add: absVal_def neg_long_other)
  obtain nb k where nb:
    "(if absVal = 0 then ((replicate 20 (CHR 0x00))[0 := CHR ''0''], 1)
      else digits_loop absVal (replicate 20 (CHR 0x00)) 0) = (nb, k)"
    by fastforce
  have d: "k = length (dec_digits (unat absVal))" "take k nb = rev (dec_digits (unat absVal))"
    "length nb = 20"
    using numBuf_digits [OF nb] by auto
  have k: "k \<le> 10"
    using d(1) length_dec_digits_word [of absVal] by simp
  have r: "DebugLogInt_numBuf value =
      Inr (if value <s 0 then (nb[k := CHR ''-''], k + 1) else (nb, k))"
    unfolding DebugLogInt_numBuf_def Let_def c using nb
    by (simp only: sum.case prod.case)
  show ?thesis
  proof (cases "value <s 0")
    case True
    then have neg: "sint value < 0"
      by (simp add: word_sless_alt)
    have "unat absVal = nat (- sint value)"
      using True neg by (simp add: absVal_def unat_neg)
    then show ?thesis
      using d(2,3) k neg True by (simp add: r decimal_def take_Suc_conv_app_nth)
  next
    case False
    then have pos: "\<not> sint value < 0"
      by (simp add: word_sless_alt)
    have "unat absVal = nat (sint value)"
      using False pos by (simp add: absVal_def unat_nonneg)
    then show ?thesis
      using d(2,3) k pos False by (simp add: r decimal_def)
  qed
qed

lemma write_digits_fst:
  "writes_succeed tb \<Longrightarrow> n \<le> length buf \<Longrightarrow> fst (write_digits tb buf n s)"
  by (simp add: write_digits_ok)

lemma write_digits_calls:
  "writes_succeed tb \<Longrightarrow> n \<le> length buf \<Longrightarrow>
   calls (snd (write_digits tb buf n s)) =
     calls s @ map (\<lambda>c. FSWrite (gDebugRefNum s) 1 [c]) (rev (take n buf))"
  by (simp add: write_digits_ok)

lemma written_simps [simp]:
  "written [] = []"
  "written (c # cs) = write_data c @ written cs"
  by (simp_all add: written_def)

lemma written_append [simp]: "written (xs @ ys) = written xs @ written ys"
  by (simp add: written_def)

lemma written_bytes [simp]: "written (map (\<lambda>c. FSWrite h 1 [c]) cs) = cs"
  by (induction cs) (simp_all add: written_def)

lemma calls_since_eq: "calls s' = calls s @ cs \<Longrightarrow> map fst (since s s') = cs"
  by (simp add: calls_def since_def flip: drop_map)

lemma writes_succeed_ok: "writes_succeed tb_ok"
  by (simp add: writes_succeed_def tb_ok_def)

lemma state_of_simps [simp]: "state_of (Inr s) = s" "state_of (Inl (e, s)) = s"
  by (simp_all add: state_of_def)

section \<open>DebugInit: the result and the state it leaves\<close>

text \<open>
  C1. \<open>DebugInit\<close> returns \<open>true\<close>, and \<open>DebugIsEnabled\<close> answers \<open>true\<close> afterwards, exactly
  when the \<open>Create\<close>, the \<open>FSOpen\<close> and the \<open>FSWrite\<close> of the header it made all returned
  \<open>noErr\<close>. After a success the calls of this \<open>DebugInit\<close> leave open exactly the reference
  number the Logger holds. After a failure the Logger is disabled, holds no reference
  number, and the calls of this \<open>DebugInit\<close> leave none open: one that was opened has been
  closed again.
\<close>

theorem DebugInit_result:
  "DebugInit tb name s = (ok, s') \<Longrightarrow>
     DebugIsEnabled s' = ok
   \<and> (ok \<longleftrightarrow> succeeded is_Create (since s s') \<and> succeeded is_FSOpen (since s s')
              \<and> succeeded is_FSWrite (since s s'))
   \<and> (ok \<longrightarrow> open_handles (since s s') = [gDebugRefNum s'])
   \<and> (\<not> ok \<longrightarrow> gDebugRefNum s' = 0 \<and> open_handles (since s s') = [])"
  unfolding DebugInit_def DebugIsEnabled_def
  by (auto simp: Let_def case_prod_beta since_def succeeded_def open_handles_def
           split: option.splits if_splits)

theorem DebugInit_result_witness:
  "DebugIsEnabled (snd (DebugInit tb_ok (Some ''log'') initial))
   \<and> open_handles (since initial (snd (DebugInit tb_ok (Some ''log'') initial))) = [1]
   \<and> \<not> DebugIsEnabled (snd (DebugInit (tb_failing is_FSWrite) (Some ''log'') initial))
   \<and> open_handles (since initial (snd (DebugInit (tb_failing is_FSWrite) (Some ''log'') initial))) = []"
  using DebugInit_result [OF DebugInit_ok_eval] DebugInit_result [OF DebugInit_failing_write_eval]
  by (simp add: DebugInit_ok_eval DebugInit_failing_write_eval)

text \<open>
  C2, in the form that holds of the code. \<open>DebugInit(nil)\<close> returns \<open>false\<close> and leaves the
  Logger disabled with no reference number. Before the failure signal \<open>SysBeep(1)\<close> it calls
  \<open>FSClose\<close> on a reference number it held, and nothing else: no delete, create, open or
  write. An empty name is not refused: after the same \<open>FSClose\<close>, \<open>FSDelete\<close> and \<open>Create\<close>
  are called with the empty name. The theorem after the witness shows both departures from
  "failure before any I/O": the \<open>FSClose\<close> before \<open>SysBeep(1)\<close>, and the calls made for an
  empty name.
\<close>

theorem DebugInit_nil:
  "fst (DebugInit tb None s) = False
   \<and> calls (snd (DebugInit tb None s)) =
       calls s @ (if gDebugRefNum s \<noteq> 0 then [FSClose (gDebugRefNum s)] else []) @ [SysBeep 1]
   \<and> gDebugRefNum (snd (DebugInit tb None s)) = 0
   \<and> \<not> gDebugEnabled (snd (DebugInit tb None s))
   \<and> (\<exists>rest. calls (snd (DebugInit tb (Some []) s)) =
         calls s @ (if gDebugRefNum s \<noteq> 0 then [FSClose (gDebugRefNum s)] else [])
           @ [FSDelete [] 0, Create [] 0 ''ttxt'' ''TEXT''] @ rest)"
  by (simp add: DebugInit_def Let_def case_prod_beta DebugInit_name c_text_def)

theorem DebugInit_nil_witness:
  "calls (snd (DebugInit tb_ok None initial)) = [SysBeep 1]
   \<and> gDebugRefNum (snd (DebugInit tb_ok None logging)) = 0"
  using DebugInit_nil [of tb_ok initial] DebugInit_nil [of tb_ok logging]
  by (simp add: initial_def calls_def)

theorem DebugInit_nil_empty_counterexample:
  "calls (snd (DebugInit tb_ok None logging)) = calls logging @ [FSClose 1, SysBeep 1]
   \<and> calls (snd (DebugInit (tb_failing is_Create) (Some []) initial)) =
       [FSDelete [] 0, Create [] 0 ''ttxt'' ''TEXT'', SysBeep 2]
   \<and> fst (DebugInit tb_ok (Some []) initial)"
  by (simp add: DebugInit_def Let_def case_prod_beta DebugInit_name c_text_def
        fst_tcall_failing fst_tcall_ok noErr_def)
     (simp add: initial_def calls_def)

text \<open>
  C7. When the name is longer than 255 bytes, the file name that \<open>DebugInit\<close> gives to
  \<open>FSDelete\<close>, to \<open>Create\<close> and, once \<open>Create\<close> has returned \<open>noErr\<close>, to \<open>FSOpen\<close> is the
  first 255 bytes of the name; no call of this \<open>DebugInit\<close> is given another file name.
\<close>

theorem DebugInit_truncates:
  assumes "255 < MyStrLen (Some fname)"
    and "cs = map fst (since s (snd (DebugInit tb (Some fname) s)))"
  shows "FSDelete (take 255 fname) 0 \<in> set cs
       \<and> Create (take 255 fname) 0 ''ttxt'' ''TEXT'' \<in> set cs
       \<and> (succeeded is_Create (since s (snd (DebugInit tb (Some fname) s))) \<longrightarrow>
            FSOpen (take 255 fname) 0 \<in> set cs)
       \<and> (\<forall>c\<in>set cs. call_name c = None \<or> call_name c = Some (take 255 fname))"
proof -
  have n: "take 255 (c_text (Some fname)) = take 255 fname"
    using assms(1) by (simp add: c_text_def min_def)
  show ?thesis
    unfolding assms(2) DebugInit_def
    by (auto simp: Let_def case_prod_beta DebugInit_name n since_def succeeded_def)
qed

theorem DebugInit_truncates_witness:
  "FSDelete (replicate 255 (CHR ''a'')) 0
     \<in> set (map fst (since initial (snd (DebugInit tb_ok (Some (replicate 300 (CHR ''a''))) initial))))"
  using DebugInit_truncates [of "replicate 300 (CHR ''a'')" _ initial tb_ok, OF _ refl]
  by (simp add: MyStrLen_Some takeWhile_replicate)

section \<open>DebugLog\<close>

text \<open>
  C3. \<open>DebugLog\<close> tests, in this order, that the Logger is enabled, that it holds a
  reference number, that the message is not \<open>nil\<close> and that its length is not \<open>0\<close>. The
  first test that fails ends the call with its own signal, \<open>SysBeep\<close> 5, 6, 7 or 8, as the
  only Toolbox call. So a disabled Logger, a \<open>nil\<close> message and an empty message each hand
  no byte to \<open>FSWrite\<close>.
\<close>

theorem DebugLog_preconditions:
  "(\<not> gDebugEnabled s \<longrightarrow> calls (DebugLog tb message s) = calls s @ [SysBeep 5])
   \<and> (gDebugEnabled s \<and> gDebugRefNum s = 0 \<longrightarrow>
        calls (DebugLog tb message s) = calls s @ [SysBeep 6])
   \<and> (gDebugEnabled s \<and> gDebugRefNum s \<noteq> 0 \<and> message = None \<longrightarrow>
        calls (DebugLog tb message s) = calls s @ [SysBeep 7])
   \<and> (gDebugEnabled s \<and> gDebugRefNum s \<noteq> 0 \<and> message \<noteq> None \<and> MyStrLen message = 0 \<longrightarrow>
        calls (DebugLog tb message s) = calls s @ [SysBeep 8])
   \<and> (\<not> gDebugEnabled s \<or> gDebugRefNum s = 0 \<or> message = None \<or> message = Some [] \<longrightarrow>
        written (map fst (since s (DebugLog tb message s))) = []
        \<and> list_all is_SysBeep (map fst (since s (DebugLog tb message s))))"
  by (auto simp: DebugLog_def Let_def since_def written_def MyStrLen_Some
           split: option.splits)

theorem DebugLog_preconditions_witness:
  "calls (DebugLog tb_ok (Some ''hello'') initial) = [SysBeep 5]
   \<and> calls (DebugLog tb_ok None logging) = calls logging @ [SysBeep 7]
   \<and> calls (DebugLog tb_ok (Some []) logging) = calls logging @ [SysBeep 8]
   \<and> written (map fst (since logging (DebugLog tb_ok (Some []) logging))) = []"
  using DebugLog_preconditions [of initial tb_ok "Some ''hello''"]
    DebugLog_preconditions [of logging tb_ok None]
    DebugLog_preconditions [of logging tb_ok "Some []"]
  by (simp add: initial_def calls_def MyStrLen_Some)

text \<open>
  C4. With the preconditions met, \<open>DebugLog\<close> hands the message to \<open>FSWrite\<close>. If that
  returns an error, or a byte count other than the length of the message, the call ends
  with \<open>SysBeep(20)\<close> and the terminator is not written. Otherwise the terminator
  \<^verbatim>\<open>\r\<close> is written, and an error of that write ends the call with \<open>SysBeep(21)\<close>.
  In every case \<open>DebugLog\<close> returns nothing to its caller, and the Logger stays enabled
  with the same reference number.
\<close>

theorem DebugLog_write_failures:
  assumes "gDebugEnabled s" "gDebugRefNum s \<noteq> 0" "message = Some msg" "MyStrLen message \<noteq> 0"
    and "w1 = FSWrite (gDebugRefNum s) (int (MyStrLen message)) (take (MyStrLen message) msg)"
    and "w2 = FSWrite (gDebugRefNum s) 1 [CHR 0x0D]"
    and "r1 = tb (trace s) w1"
    and "r2 = tb (trace s @ [(w1, r1)]) w2"
  shows "(reply_err r1 \<noteq> noErr \<or> reply_out r1 \<noteq> int (MyStrLen message) \<longrightarrow>
            calls (DebugLog tb message s) = calls s @ [w1, SysBeep 20])
       \<and> (reply_err r1 = noErr \<and> reply_out r1 = int (MyStrLen message) \<and> reply_err r2 \<noteq> noErr \<longrightarrow>
            calls (DebugLog tb message s) = calls s @ [w1, w2, SysBeep 21])
       \<and> (reply_err r1 = noErr \<and> reply_out r1 = int (MyStrLen message) \<and> reply_err r2 = noErr \<longrightarrow>
            calls (DebugLog tb message s) = calls s @ [w1, w2])
       \<and> gDebugEnabled (DebugLog tb message s)
       \<and> gDebugRefNum (DebugLog tb message s) = gDebugRefNum s"
  using assms
  by (auto simp: DebugLog_def Let_def case_prod_beta newline_def fst_tcall)

theorem DebugLog_write_failures_witness:
  "calls (DebugLog (tb_failing is_FSWrite) (Some ''hi'') logging) =
     calls logging @ [FSWrite 1 2 ''hi'', SysBeep 20]
   \<and> calls (DebugLog (tb_failing (\<lambda>c. c = FSWrite 1 1 [CHR 0x0D])) (Some ''hi'') logging) =
     calls logging @ [FSWrite 1 2 ''hi'', FSWrite 1 1 [CHR 0x0D], SysBeep 21]
   \<and> gDebugEnabled (DebugLog (tb_failing is_FSWrite) (Some ''hi'') logging)"
  using DebugLog_write_failures [of logging "Some ''hi''" "''hi''" _ _ _ "tb_failing is_FSWrite",
      OF _ _ refl _ refl refl refl refl]
    DebugLog_write_failures [of logging "Some ''hi''" "''hi''" _ _ _
      "tb_failing (\<lambda>c. c = FSWrite 1 1 [CHR 0x0D])", OF _ _ refl _ refl refl refl refl]
  by (simp add: MyStrLen_Some tb_failing_def tb_ok_def noErr_def)

text \<open>
  C10. \<open>MyStrLen\<close> is \<open>0\<close> for \<open>nil\<close>, and otherwise the number of bytes before the first NUL,
  or 32000 if that is less; \<open>DebugInit\<close>, \<open>DebugLog\<close>, \<open>DebugLogInt\<close> and \<open>DebugLogHex\<close>
  measure their text argument with it. So \<open>DebugLog\<close> of a message with more than 32000
  bytes before its NUL hands \<open>FSWrite\<close> the first 32000 bytes of the message, and after that
  nothing but the terminator.
\<close>

theorem MyStrLen_capped:
  "MyStrLen None = 0
   \<and> MyStrLen (Some cs) = min (length (takeWhile (\<lambda>c. c \<noteq> CHR 0x00) cs)) 32000
   \<and> (gDebugEnabled s \<and> gDebugRefNum s \<noteq> 0
        \<and> 32000 < length (takeWhile (\<lambda>c. c \<noteq> CHR 0x00) msg) \<longrightarrow>
      (\<exists>rest. map fst (since s (DebugLog tb (Some msg) s)) =
                FSWrite (gDebugRefNum s) 32000 (take 32000 msg) # rest
            \<and> (\<forall>c\<in>set rest. c = FSWrite (gDebugRefNum s) 1 [CHR 0x0D] \<or> is_SysBeep c)))"
  by (auto simp: MyStrLen_Some min.commute DebugLog_def Let_def case_prod_beta since_def newline_def)

theorem MyStrLen_capped_witness:
  "MyStrLen (Some (replicate 32005 (CHR ''a''))) = 32000
   \<and> hd (map fst (since logging (DebugLog tb_ok (Some (replicate 32005 (CHR ''a''))) logging)))
       = FSWrite 1 32000 (replicate 32000 (CHR ''a''))"
  using MyStrLen_capped [of "replicate 32005 (CHR ''a'')" logging "replicate 32005 (CHR ''a'')" tb_ok]
  by (auto simp: takeWhile_replicate)

section \<open>DebugClose\<close>

text \<open>
  C8. With a reference number held, \<open>DebugClose\<close> calls \<open>FSWrite\<close> with the footer
  \<^verbatim>\<open>DEBUG LOG CLOSED\r\<close> and then \<open>FSClose\<close>, whatever the write returns; with none held it
  makes no call. It always ends disabled with no reference number, and a second
  \<open>DebugClose\<close> changes nothing: neither the state nor the calls made.
\<close>

theorem DebugClose_spec:
  "(gDebugRefNum s \<noteq> 0 \<longrightarrow>
      calls (DebugClose tb s) =
        calls s @ [FSWrite (gDebugRefNum s) 17 (''DEBUG LOG CLOSED'' @ [CHR 0x0D]),
                   FSClose (gDebugRefNum s)])
   \<and> (gDebugRefNum s = 0 \<longrightarrow> trace (DebugClose tb s) = trace s)
   \<and> gDebugRefNum (DebugClose tb s) = 0
   \<and> \<not> gDebugEnabled (DebugClose tb s)
   \<and> DebugClose tb (DebugClose tb s) = DebugClose tb s"
  by (simp add: DebugClose_def Let_def MyStrLen_endMsg) (simp add: endMsg_def)

theorem DebugClose_spec_witness:
  "calls (DebugClose (tb_failing is_FSWrite) logging) =
     calls logging @ [FSWrite 1 17 (''DEBUG LOG CLOSED'' @ [CHR 0x0D]), FSClose 1]
   \<and> gDebugRefNum (DebugClose (tb_failing is_FSWrite) logging) = 0
   \<and> \<not> gDebugEnabled (DebugClose (tb_failing is_FSWrite) logging)
   \<and> trace (DebugClose tb_ok initial) = trace initial"
  using DebugClose_spec [of logging "tb_failing is_FSWrite"] DebugClose_spec [of initial tb_ok]
  by (simp add: initial_def)

section \<open>DebugLogHex\<close>

text \<open>
  C6. With the Logger enabled, a reference number held and a message that is not \<open>nil\<close>,
  \<open>DebugLogHex\<close> calls \<open>FSWrite\<close> with the message (unless it is empty), then with the two
  characters \<^verbatim>\<open>0x\<close>, then with exactly two uppercase hexadecimal digits, zero-padded, of
  the value modulo 256, then with the terminator \<^verbatim>\<open>\r\<close>. No reply of the Toolbox changes
  these calls.
\<close>

theorem DebugLogHex_record:
  assumes "gDebugEnabled s" "gDebugRefNum s \<noteq> 0" "message \<noteq> None"
  shows "calls (DebugLogHex tb message value s) =
           calls s
           @ (if c_text message = [] then []
              else [FSWrite (gDebugRefNum s) (int (length (c_text message))) (c_text message)])
           @ [FSWrite (gDebugRefNum s) 2 ''0x'',
              FSWrite (gDebugRefNum s) 2 (hex_byte (unat value mod 256)),
              FSWrite (gDebugRefNum s) 1 [CHR 0x0D]]
       \<and> written (map fst (since s (DebugLogHex tb message value s))) =
           c_text message @ ''0x'' @ hex_byte (unat value mod 256) @ [CHR 0x0D]"
proof -
  obtain msg where m: "message = Some msg"
    using assms(3) by auto
  have e: "c_text message = [] \<longleftrightarrow> MyStrLen message = 0"
    using length_c_text [of message] by auto
  have t: "take (MyStrLen (Some msg)) msg = c_text (Some msg)"
    by (simp add: c_text_def)
  show ?thesis
    using assms(1,2) e
    by (auto simp: DebugLogHex_def Let_def m t take2_update hex_buf newline_def length_c_text
          since_def written_def)
qed


theorem DebugLogHex_record_witness:
  "calls (DebugLogHex tb_ok (Some ''v='') 0x1FF logging) =
     calls logging @ [FSWrite 1 2 ''v='', FSWrite 1 2 ''0x'', FSWrite 1 2 ''FF'',
                      FSWrite 1 1 [CHR 0x0D]]
   \<and> written (map fst (since logging (DebugLogHex (tb_failing is_FSWrite) (Some []) 0x05 logging)))
       = ''0x05'' @ [CHR 0x0D]"
proof -
  have a: "hex_byte 255 = ''FF''"
    by code_simp
  have b: "hex_byte 5 = ''05''"
    by code_simp
  have c: "c_text (Some ''v='') = ''v=''" "c_text (Some []) = []"
    by (simp_all add: c_text_Some)
  show ?thesis
    using DebugLogHex_record [of logging "Some ''v=''" tb_ok "0x1FF"]
      DebugLogHex_record [of logging "Some []" "tb_failing is_FSWrite" "0x05"]
    by (simp add: a b c)
qed

section \<open>DebugLogInt\<close>

text \<open>
  C5. With the Logger enabled, a reference number held, a message that is not \<open>nil\<close> and
  every \<open>FSWrite\<close> returning \<open>noErr\<close>: for every value but the least \<^verbatim>\<open>long\<close>, \<open>DebugLogInt\<close>
  writes the message (unless it is empty), then the decimal numeral of the value one byte
  per \<open>FSWrite\<close>, most significant digit first and with a leading minus sign exactly for a
  negative value, then the terminator \<^verbatim>\<open>\r\<close>. For the least \<^verbatim>\<open>long\<close>, \<open>- 2147483648\<close>, the
  code does not get that far: \<^verbatim>\<open>absVal = -value\<close> negates in signed arithmetic, before the
  conversion to \<^verbatim>\<open>unsigned long\<close>, and the call stops in the signed overflow with the message
  written and no digit. The magnitude \<open>2147483648\<close> is not computed in unsigned arithmetic.
\<close>

theorem DebugLogInt_outcome:
  assumes "gDebugEnabled s" "gDebugRefNum s \<noteq> 0" "message \<noteq> None" "writes_succeed tb"
    and "pre = (if c_text message = [] then []
                else [FSWrite (gDebugRefNum s) (int (length (c_text message))) (c_text message)])"
  shows "(value \<noteq> 0x80000000 \<longrightarrow>
            \<not> isl (DebugLogInt tb message value s)
          \<and> calls (state_of (DebugLogInt tb message value s)) =
              calls s @ pre
              @ map (\<lambda>c. FSWrite (gDebugRefNum s) 1 [c]) (decimal (sint value))
              @ [FSWrite (gDebugRefNum s) 1 [CHR 0x0D]]
          \<and> written (map fst (since s (state_of (DebugLogInt tb message value s)))) =
              c_text message @ decimal (sint value) @ [CHR 0x0D])
       \<and> (value = 0x80000000 \<longrightarrow>
            (\<exists>s'. DebugLogInt tb message value s = Inl (SignedOverflow, s')
                 \<and> calls s' = calls s @ pre))"
proof -
  obtain msg where m: "message = Some msg"
    using assms(3) by auto
  have e: "c_text message = [] \<longleftrightarrow> MyStrLen message = 0"
    using length_c_text [of message] by auto
  have t: "take (MyStrLen (Some msg)) msg = c_text (Some msg)"
    by (simp add: c_text_def)
  have least: "\<exists>s'. DebugLogInt tb message value s = Inl (SignedOverflow, s')
                 \<and> calls s' = calls s @ pre" if "value = 0x80000000"
    using assms(1,2,4) e
    by (auto simp: DebugLogInt_def Let_def case_prod_beta m t that DebugLogInt_numBuf_least
          writes_succeed_tcall length_c_text assms(5))
  have other: "\<not> isl (DebugLogInt tb message value s)
          \<and> calls (state_of (DebugLogInt tb message value s)) =
              calls s @ pre
              @ map (\<lambda>c. FSWrite (gDebugRefNum s) 1 [c]) (decimal (sint value))
              @ [FSWrite (gDebugRefNum s) 1 [CHR 0x0D]]" if v: "value \<noteq> 0x80000000"
  proof -
    obtain numBuf i where nb: "DebugLogInt_numBuf value = Inr (numBuf, i)"
      and d: "i \<le> length numBuf" "rev (take i numBuf) = decimal (sint value)"
      using DebugLogInt_numBuf_spec [OF v] by auto
    show ?thesis
      using assms(1,2,4) e d
      by (auto simp: DebugLogInt_def Let_def case_prod_beta m nb t writes_succeed_tcall
            write_digits_fst write_digits_calls newline_def length_c_text assms(5))
  qed
  have w: "written (map fst (since s (state_of (DebugLogInt tb message value s)))) =
              c_text message @ decimal (sint value) @ [CHR 0x0D]" if "value \<noteq> 0x80000000"
  proof -
    have "written pre = c_text message"
      by (simp add: assms(5))
    then show ?thesis
      using other [OF that] calls_since_eq [of "state_of (DebugLogInt tb message value s)" s]
      by simp
  qed
  show ?thesis
    using least other w by blast
qed


theorem DebugLogInt_outcome_witness:
  "written (map fst (since logging (state_of (DebugLogInt tb_ok (Some ''n='') 0 logging))))
     = ''n=0'' @ [CHR 0x0D]
   \<and> written (map fst (since logging (state_of (DebugLogInt tb_ok (Some ''n='') (- 42) logging))))
     = ''n=-42'' @ [CHR 0x0D]
   \<and> isl (DebugLogInt tb_ok (Some ''n='') 0x80000000 logging)
   \<and> calls (state_of (DebugLogInt tb_ok (Some ''n='') 0x80000000 logging))
     = calls logging @ [FSWrite 1 2 ''n='']"
proof -
  have a: "decimal 0 = ''0''" "decimal (- 42) = ''-42''"
    by (simp_all add: decimal_def dec_digits.simps digit_char_def)
  have b: "sint (0 :: 32 word) = 0" "sint (- 42 :: 32 word) = - 42"
    by simp_all
  have c: "c_text (Some ''n='') = ''n=''"
    by (simp add: c_text_Some)
  show ?thesis
    using DebugLogInt_outcome [of logging "Some ''n=''" tb_ok _ 0, OF _ _ _ _ refl]
      DebugLogInt_outcome [of logging "Some ''n=''" tb_ok _ "- 42", OF _ _ _ _ refl]
      DebugLogInt_outcome [of logging "Some ''n=''" tb_ok _ "0x80000000", OF _ _ _ _ refl]
    by (auto simp: a b c writes_succeed_ok)
qed

section \<open>The invariant of the Logger\<close>

lemma open_handles_append [simp]:
  "open_handles (tr @ xs) = foldl handle_step (open_handles tr) xs"
  by (simp add: open_handles_def)

lemma open_handles_Nil [simp]: "open_handles [] = []"
  by (simp add: open_handles_def)

lemma never_two_start: "never_two hs tr \<Longrightarrow> length hs \<le> 1"
  by (cases tr) auto

lemma never_two_append:
  "never_two hs (xs @ ys) = (never_two hs xs \<and> never_two (foldl handle_step hs xs) ys)"
  by (induction xs arbitrary: hs) (auto dest: never_two_start)

lemma never_two_trace [simp]:
  "never_two [] (tr @ xs) = (never_two [] tr \<and> never_two (open_handles tr) xs)"
  by (simp add: never_two_append open_handles_def)

lemma never_two_length: "never_two hs tr \<Longrightarrow> length (foldl handle_step hs tr) \<le> 1"
  by (induction tr arbitrary: hs) auto

lemma never_two_take: "never_two hs tr \<Longrightarrow> length (foldl handle_step hs (take n tr)) \<le> 1"
proof -
  assume "never_two hs tr"
  then have "never_two hs (take n tr @ drop n tr)"
    by (simp only: append_take_drop_id)
  then have "never_two hs (take n tr)"
    by (simp only: never_two_append)
  then show ?thesis
    by (rule never_two_length)
qed

lemma refnums_nonzero_tcall:
  "refnums_nonzero tb \<Longrightarrow> reply_err (fst (tcall tb (FSOpen p v) s)) = noErr \<Longrightarrow>
   reply_out (fst (tcall tb (FSOpen p v) s)) \<noteq> 0"
  by (simp add: refnums_nonzero_def fst_tcall)

lemma write_digits_handles [simp]:
  "open_handles (trace (snd (write_digits tb buf n s))) = open_handles (trace s)"
  by (induction n arbitrary: s) (simp_all add: case_prod_beta)

lemma write_digits_never_two [simp]:
  "length (open_handles (trace s)) \<le> 1 \<Longrightarrow>
   never_two [] (trace (snd (write_digits tb buf n s))) = never_two [] (trace s)"
  by (induction n arbitrary: s) (simp_all add: case_prod_beta)

lemma logger_inv_initial: "logger_inv initial"
  by (simp add: logger_inv_def initial_def)


lemma DebugInit_after_close:
  "DebugInit tb name s =
   DebugInit tb name
     (if gDebugRefNum s \<noteq> 0
      then (snd (tcall tb (FSClose (gDebugRefNum s)) s))\<lparr>gDebugRefNum := 0\<rparr> else s)"
  by (simp add: DebugInit_def)

lemma logger_inv_DebugInit_closed:
  assumes "refnums_nonzero tb" "gDebugRefNum s = 0" "open_handles (trace s) = []"
    "never_two [] (trace s)"
  shows "logger_inv (snd (DebugInit tb name s))"
proof (cases name)
  case None
  then show ?thesis
    using assms(2,3,4) by (simp add: logger_inv_def DebugInit_def)
next
  case (Some fname)
  show ?thesis
    using assms
    by (simp add: logger_inv_def DebugInit_def Some Let_def case_prod_beta refnums_nonzero_tcall)
qed

lemma logger_inv_DebugInit:
  assumes "refnums_nonzero tb" "logger_inv s"
  shows "logger_inv (snd (DebugInit tb name s))"
proof -
  let ?s1 = "if gDebugRefNum s \<noteq> 0
      then (snd (tcall tb (FSClose (gDebugRefNum s)) s))\<lparr>gDebugRefNum := 0\<rparr> else s"
  have "gDebugRefNum ?s1 = 0" "open_handles (trace ?s1) = []" "never_two [] (trace ?s1)"
    using assms(2) by (simp_all add: logger_inv_def)
  then have "logger_inv (snd (DebugInit tb name ?s1))"
    using assms(1) by (intro logger_inv_DebugInit_closed)
  then show ?thesis
    by (simp only: DebugInit_after_close [symmetric])
qed

lemma logger_inv_DebugLog: "logger_inv s \<Longrightarrow> logger_inv (DebugLog tb message s)"
  by (auto simp: logger_inv_def DebugLog_def Let_def case_prod_beta split: option.splits)

lemma logger_inv_DebugLogHex: "logger_inv s \<Longrightarrow> logger_inv (DebugLogHex tb message v s)"
  by (auto simp: logger_inv_def DebugLogHex_def Let_def case_prod_beta split: option.splits)

lemma logger_inv_DebugClose: "logger_inv s \<Longrightarrow> logger_inv (DebugClose tb s)"
  by (auto simp: logger_inv_def DebugClose_def Let_def)

lemma logger_inv_DebugLogInt:
  "logger_inv s \<Longrightarrow> logger_inv (state_of (DebugLogInt tb message v s))"
  by (auto simp: logger_inv_def DebugLogInt_def Let_def case_prod_beta
           split: option.splits sum.splits)

lemma logger_inv_exec:
  "refnums_nonzero tb \<Longrightarrow> logger_inv s \<Longrightarrow> logger_inv (exec tb s operation)"
  by (cases operation)
     (simp_all add: logger_inv_DebugInit logger_inv_DebugLog logger_inv_DebugLogInt
        logger_inv_DebugLogHex logger_inv_DebugClose DebugLogFormat_def DebugFlush_def)

lemma logger_inv_run_from:
  "refnums_nonzero tb \<Longrightarrow> logger_inv s \<Longrightarrow> logger_inv (run_from tb s ops)"
  by (induction ops arbitrary: s) (simp_all add: logger_inv_exec)

lemma refnums_nonzero_ok: "refnums_nonzero tb_ok"
  by (simp add: refnums_nonzero_def tb_ok_def)

text \<open>
  C9. An enabled Logger holds a reference number: this is so in the initial state and
  after every operation (\<open>DebugInit\<close>, \<open>DebugLog\<close>, \<open>DebugLogInt\<close>, \<open>DebugLogHex\<close>,
  \<open>DebugLogFormat\<close>, \<open>DebugFlush\<close>, \<open>DebugClose\<close>), so after every run of operations from
  the initial state. At every moment of such a run at most one reference number is open,
  since \<open>DebugInit\<close> calls \<open>FSClose\<close> on the one it holds before it calls \<open>FSOpen\<close>. A
  \<open>DebugLogInt\<close> that stops in the signed overflow ends the run, and the invariant holds
  of the state it stops in. The File Manager is taken to store a reference number other
  than \<open>0\<close> whenever \<open>FSOpen\<close> returns \<open>noErr\<close>, \<open>0\<close> being what the code keeps for
  "no file".
\<close>

theorem logger_inv_preserved:
  "logger_inv initial
   \<and> (refnums_nonzero tb \<and> logger_inv s \<longrightarrow> logger_inv (exec tb s operation))
   \<and> (refnums_nonzero tb \<longrightarrow>
        logger_inv (run tb ops)
        \<and> (gDebugEnabled (run tb ops) \<longrightarrow> gDebugRefNum (run tb ops) \<noteq> 0)
        \<and> (\<forall>n. length (open_handles (take n (trace (run tb ops)))) \<le> 1))"
proof -
  have r: "logger_inv (run tb ops)" if "refnums_nonzero tb"
    unfolding run_def using that logger_inv_initial by (rule logger_inv_run_from)
  have "length (open_handles (take n (trace (run tb ops)))) \<le> 1" if "refnums_nonzero tb" for n
    using r [OF that] never_two_take [of "[]" "trace (run tb ops)" n]
    by (simp add: logger_inv_def open_handles_def)
  then show ?thesis
    using logger_inv_initial logger_inv_exec [of tb s operation] r
    by (auto simp: logger_inv_def)
qed

theorem logger_inv_preserved_witness:
  "logger_inv (run tb_ok [Initialize (Some ''log''), AppendInt (Some ''n='') 7,
                          Initialize (Some ''log2''), Close])
   \<and> length (open_handles (take 7 (trace (run tb_ok [Initialize (Some ''log''),
                          AppendInt (Some ''n='') 7, Initialize (Some ''log2''), Close])))) \<le> 1
   \<and> logger_inv (exec tb_ok initial (Initialize (Some ''log'')))"
  using logger_inv_preserved [of tb_ok initial "Initialize (Some ''log'')"
      "[Initialize (Some ''log''), AppendInt (Some ''n='') 7, Initialize (Some ''log2''), Close]"]
  by (simp add: refnums_nonzero_ok)

end
